theory Spec2Isabelle
  imports Main "HOL-Library.Finite_Map" "HOL-Library.Multiset"
begin

unbundle bit_operations_syntax

section \<open>Graph data types of the driver (neo4j/v1/types/graph.py)\<close>

text \<open>
  The development embeds the classes \<open>Entity\<close>, \<open>Node\<close>, \<open>Relationship\<close> and \<open>Path\<close>
  of \<^verbatim>\<open>neo4j/v1/types/graph.py\<close>. Python exceptions are values of \<open>py_error\<close>, a
  function that can raise returns \<open>py_error + 'a\<close> with \<open>Inl\<close> the exception.
  Assertions are modelled as Python runs them by default (enabled).
\<close>

subsection \<open>Values, errors and built-in containers\<close>

datatype py_error = AssertionError | IndexError | AttributeError | TypeError

text \<open>Sequencing: an exception of the first computation ends the whole computation.\<close>

fun and_then :: "py_error + 'a \<Rightarrow> ('a \<Rightarrow> py_error + 'b) \<Rightarrow> py_error + 'b" where
  "and_then (Inl e) f = Inl e"
| "and_then (Inr x) f = f x"

text \<open>Plain Python values that occur as property values and as unrelated objects.\<close>

datatype pyval = PNone | PInt int | PStr string

text \<open>A \<open>dict\<close> with string keys: finite, one value for each key.\<close>

type_synonym pydict = "(string, pyval) fmap"

definition dict_len :: "pydict \<Rightarrow> nat" where
  "dict_len d = fcard (fmdom d)"

definition dict_contains :: "pydict \<Rightarrow> string \<Rightarrow> bool" where
  "dict_contains d name = (name |\<in>| fmdom d)"

text \<open>\<^verbatim>\<open>d.get(name, default)\<close>: the default for a missing key, never a \<open>KeyError\<close>.\<close>

definition dict_get :: "pydict \<Rightarrow> string \<Rightarrow> pyval \<Rightarrow> pyval" where
  "dict_get d name dflt = (case fmlookup d name of None \<Rightarrow> dflt | Some v \<Rightarrow> v)"

text \<open>
  List indexing \<^verbatim>\<open>xs[i]\<close>: a negative index counts from the end, an index out of
  range raises \<open>IndexError\<close>. \<open>py_index\<close> gives the position that is read.
\<close>

definition py_index :: "nat \<Rightarrow> int \<Rightarrow> py_error + nat" where
  "py_index n i =
     (let j = (if i < 0 then i + int n else i)
      in if 0 \<le> j \<and> j < int n then Inr (nat j) else Inl IndexError)"

definition py_getitem :: "'a list \<Rightarrow> int \<Rightarrow> py_error + 'a" where
  "py_getitem xs i = and_then (py_index (length xs) i) (\<lambda>j. Inr (xs ! j))"

text \<open>The slices \<^verbatim>\<open>xs[0::2]\<close> and \<^verbatim>\<open>xs[1::2]\<close>.\<close>

fun slice_0_2 :: "'a list \<Rightarrow> 'a list" where
  "slice_0_2 [] = []"
| "slice_0_2 [x] = [x]"
| "slice_0_2 (x # y # xs) = x # slice_0_2 xs"

definition slice_1_2 :: "'a list \<Rightarrow> 'a list" where
  "slice_1_2 xs = slice_0_2 (drop 1 xs)"

subsection \<open>Entity, Node, Relationship\<close>

text \<open>
  \<^verbatim>\<open>Entity.__init__(self, properties=None, **kwproperties)\<close>: the base mapping
  (\<open>None\<close> and the empty dict both give \<open>{}\<close>) updated with the keyword properties, and
  then only the items whose value is not \<open>None\<close>.
\<close>

definition Entity_init :: "pydict option \<Rightarrow> pydict \<Rightarrow> pydict" where
  "Entity_init properties kwproperties =
     (let properties = (case properties of None \<Rightarrow> fmempty | Some d \<Rightarrow> d) ++\<^sub>f kwproperties
      in fmfilter (\<lambda>k. fmlookup properties k \<noteq> Some PNone) properties)"

text \<open>The attribute \<open>id\<close> is \<open>None\<close> until a \<open>hydrate\<close> sets it.\<close>

record node =
  node_id :: "int option"
  node_properties :: pydict
  node_labels :: "string set"

record relationship =
  rel_id :: "int option"
  rel_properties :: pydict
  rel_start :: "int option"
  rel_end :: "int option"
  rel_type :: string

definition Node_init :: "string set option \<Rightarrow> pydict option \<Rightarrow> pydict \<Rightarrow> node" where
  "Node_init labels properties kwproperties =
     \<lparr>node_id = None,
      node_properties = Entity_init properties kwproperties,
      node_labels = (case labels of None \<Rightarrow> {} | Some l \<Rightarrow> l)\<rparr>"

definition Node_hydrate :: "int option \<Rightarrow> string set option \<Rightarrow> pydict option \<Rightarrow> node" where
  "Node_hydrate id' labels properties =
     (let inst = Node_init labels properties fmempty in inst\<lparr>node_id := id'\<rparr>)"

definition Relationship_init ::
  "int option \<Rightarrow> int option \<Rightarrow> string \<Rightarrow> pydict option \<Rightarrow> pydict \<Rightarrow> relationship" where
  "Relationship_init start end' type' properties kwproperties =
     \<lparr>rel_id = None,
      rel_properties = Entity_init properties kwproperties,
      rel_start = start, rel_end = end', rel_type = type'\<rparr>"

definition Relationship_hydrate ::
  "int option \<Rightarrow> int option \<Rightarrow> int option \<Rightarrow> string \<Rightarrow> pydict option \<Rightarrow> relationship" where
  "Relationship_hydrate id' start end' type' properties =
     (let inst = Relationship_init start end' type' properties fmempty in inst\<lparr>rel_id := id'\<rparr>)"

definition Relationship_hydrate_unbound ::
  "int option \<Rightarrow> string \<Rightarrow> pydict option \<Rightarrow> relationship" where
  "Relationship_hydrate_unbound id' type' properties =
     Relationship_hydrate id' None None type' properties"

text \<open>An instance of one of the two subclasses of \<open>Entity\<close>.\<close>

datatype entity = ENode node | ERel relationship

fun entity_id :: "entity \<Rightarrow> int option" where
  "entity_id (ENode n) = node_id n"
| "entity_id (ERel r) = rel_id r"

fun entity_properties :: "entity \<Rightarrow> pydict" where
  "entity_properties (ENode n) = node_properties n"
| "entity_properties (ERel r) = rel_properties r"

definition Entity_len :: "entity \<Rightarrow> nat" where
  "Entity_len self = dict_len (entity_properties self)"

definition Entity_getitem :: "entity \<Rightarrow> string \<Rightarrow> pyval" where
  "Entity_getitem self name = dict_get (entity_properties self) name PNone"

definition Entity_contains :: "entity \<Rightarrow> string \<Rightarrow> bool" where
  "Entity_contains self name = dict_contains (entity_properties self) name"

definition Entity_get :: "entity \<Rightarrow> string \<Rightarrow> pyval \<Rightarrow> pyval" where
  "Entity_get self name dflt = dict_get (entity_properties self) name dflt"

text \<open>
  Any object that can stand on the right of \<open>==\<close>: a plain value, an entity or a path.
  Only entities have the attribute \<open>id\<close>.
\<close>

record path =
  path_nodes :: "entity list"
  path_relationships :: "entity list"

datatype pyobj = OVal pyval | OEntity entity | OPath path

fun getattr_id :: "pyobj \<Rightarrow> py_error + int option" where
  "getattr_id (OEntity e) = Inr (entity_id e)"
| "getattr_id (OVal v) = Inl AttributeError"
| "getattr_id (OPath p) = Inl AttributeError"

text \<open>
  \<^verbatim>\<open>Entity.__eq__\<close>: \<^verbatim>\<open>try: return self.id == other.id\<close>,
  \<^verbatim>\<open>except AttributeError: return False\<close>.
\<close>

definition Entity_eq :: "entity \<Rightarrow> pyobj \<Rightarrow> py_error + bool" where
  "Entity_eq self other =
     (case getattr_id other of
        Inr other_id \<Rightarrow> Inr (entity_id self = other_id)
      | Inl AttributeError \<Rightarrow> Inr False
      | Inl e \<Rightarrow> Inl e)"

definition Entity_ne :: "entity \<Rightarrow> pyobj \<Rightarrow> py_error + bool" where
  "Entity_ne self other = and_then (Entity_eq self other) (\<lambda>b. Inr (\<not> b))"

text \<open>
  \<^verbatim>\<open>Entity.__hash__\<close> is \<^verbatim>\<open>hash(self.id)\<close>. The built-in \<open>hash\<close> on
  identifiers is a parameter of the model.
\<close>

definition Entity_hash :: "(int option \<Rightarrow> int) \<Rightarrow> entity \<Rightarrow> int" where
  "Entity_hash hash self = hash (entity_id self)"

subsection \<open>Path\<close>

definition Path_init :: "entity \<Rightarrow> entity list \<Rightarrow> path" where
  "Path_init start_node rels_and_nodes =
     \<lparr>path_nodes = start_node # slice_1_2 rels_and_nodes,
      path_relationships = slice_0_2 rels_and_nodes\<rparr>"

definition Path_start :: "path \<Rightarrow> py_error + entity" where
  "Path_start self = py_getitem (path_nodes self) 0"

definition Path_end :: "path \<Rightarrow> py_error + entity" where
  "Path_end self = py_getitem (path_nodes self) (- 1)"

definition Path_len :: "path \<Rightarrow> nat" where
  "Path_len self = length (path_relationships self)"

text \<open>
  The attributes \<open>start\<close> and \<open>relationships\<close> of an arbitrary object. A relationship
  has a \<open>start\<close> too, the identifier of its start node, and no \<open>relationships\<close>.
\<close>

fun getattr_start :: "pyobj \<Rightarrow> py_error + pyobj" where
  "getattr_start (OPath p) = and_then (Path_start p) (\<lambda>s. Inr (OEntity s))"
| "getattr_start (OEntity (ERel r)) =
     Inr (OVal (case rel_start r of None \<Rightarrow> PNone | Some i \<Rightarrow> PInt i))"
| "getattr_start (OEntity (ENode n)) = Inl AttributeError"
| "getattr_start (OVal v) = Inl AttributeError"

fun getattr_relationships :: "pyobj \<Rightarrow> py_error + entity list" where
  "getattr_relationships (OPath p) = Inr (path_relationships p)"
| "getattr_relationships (OEntity e) = Inl AttributeError"
| "getattr_relationships (OVal v) = Inl AttributeError"

text \<open>Equality of two tuples of entities: item by item with \<open>==\<close>, then the lengths.\<close>

fun tuple_eq :: "entity list \<Rightarrow> entity list \<Rightarrow> py_error + bool" where
  "tuple_eq (x # xs) (y # ys) =
     and_then (Entity_eq x (OEntity y)) (\<lambda>b. if b then tuple_eq xs ys else Inr False)"
| "tuple_eq [] [] = Inr True"
| "tuple_eq xs ys = Inr False"

text \<open>
  \<^verbatim>\<open>Path.__eq__\<close>:
  \<^verbatim>\<open>try: return self.start == other.start and self.relationships == other.relationships\<close>,
  \<^verbatim>\<open>except AttributeError: return False\<close>.
\<close>

definition Path_eq :: "path \<Rightarrow> pyobj \<Rightarrow> py_error + bool" where
  "Path_eq self other =
     (case
        and_then (Path_start self) (\<lambda>self_start.
        and_then (getattr_start other) (\<lambda>other_start.
        and_then (Entity_eq self_start other_start) (\<lambda>b.
          if \<not> b then Inr False
          else
            and_then (getattr_relationships other) (\<lambda>other_relationships.
              tuple_eq (path_relationships self) other_relationships))))
      of Inl AttributeError \<Rightarrow> Inr False
       | r \<Rightarrow> r)"

text \<open>\<^verbatim>\<open>Path.__hash__\<close>: the hash of the start node, then \<^verbatim>\<open>value ^= hash(relationship)\<close>.\<close>

definition Path_hash :: "(int option \<Rightarrow> int) \<Rightarrow> path \<Rightarrow> py_error + int" where
  "Path_hash hash self =
     and_then (Path_start self) (\<lambda>start.
       Inr (foldl (\<lambda>value relationship. value XOR Entity_hash hash relationship)
              (Entity_hash hash start) (path_relationships self)))"

subsection \<open>Path.hydrate\<close>

text \<open>
  The loop of \<^verbatim>\<open>Path.hydrate\<close> assigns to the \<open>start\<close> and \<open>end\<close> of the
  relationship objects in \<open>rels\<close> and appends the same objects to \<open>entities\<close>. The objects
  of \<open>rels\<close> are the store \<open>st_rels\<close>, addressed by their position in the list;
  \<open>entities\<close> holds a node or the address of a relationship. When the loop is over, the
  addresses are read in the final store: an object that the sequence selects twice shows
  its last assignment at both places, as it does in Python.
\<close>

datatype entity_ref = RNode node | RRel nat

record loop_state =
  st_rels :: "relationship list"
  st_entities :: "entity_ref list"
  st_last_node :: node

text \<open>One iteration, for the item \<open>(i, rel_index)\<close> of \<^verbatim>\<open>enumerate(sequence[::2])\<close>.\<close>

definition hydrate_step ::
  "node list \<Rightarrow> int list \<Rightarrow> nat \<times> int \<Rightarrow> loop_state \<Rightarrow> py_error + loop_state" where
  "hydrate_step nodes sequence p st =
     (case p of (i, rel_index) \<Rightarrow>
        if \<not> rel_index \<noteq> 0 then Inl AssertionError
        else
          and_then (py_getitem sequence (2 * int i + 1)) (\<lambda>node_index.
          and_then (py_getitem nodes node_index) (\<lambda>next_node.
            if rel_index > 0 then
              and_then (py_index (length (st_rels st)) (rel_index - 1)) (\<lambda>r.
                Inr \<lparr>st_rels = (st_rels st)
                        [r := (st_rels st ! r)\<lparr>rel_start := node_id (st_last_node st),
                                               rel_end := node_id next_node\<rparr>],
                     st_entities = st_entities st @ [RRel r, RNode next_node],
                     st_last_node = next_node\<rparr>)
            else
              and_then (py_index (length (st_rels st)) (- rel_index - 1)) (\<lambda>r.
                Inr \<lparr>st_rels = (st_rels st)
                        [r := (st_rels st ! r)\<lparr>rel_start := node_id next_node,
                                               rel_end := node_id (st_last_node st)\<rparr>],
                     st_entities = st_entities st @ [RRel r, RNode next_node],
                     st_last_node = next_node\<rparr>))))"

fun hydrate_loop ::
  "node list \<Rightarrow> int list \<Rightarrow> (nat \<times> int) list \<Rightarrow> loop_state \<Rightarrow> py_error + loop_state" where
  "hydrate_loop nodes sequence [] st = Inr st"
| "hydrate_loop nodes sequence (p # ps) st =
     and_then (hydrate_step nodes sequence p st) (hydrate_loop nodes sequence ps)"

fun deref :: "relationship list \<Rightarrow> entity_ref \<Rightarrow> entity" where
  "deref store (RNode n) = ENode n"
| "deref store (RRel r) = ERel (store ! r)"

text \<open>
  \<^verbatim>\<open>Path.hydrate(nodes, rels, sequence)\<close> returns the path and leaves the
  relationship objects modified: the result is the path with the final store.
\<close>

definition Path_hydrate ::
  "node list \<Rightarrow> relationship list \<Rightarrow> int list \<Rightarrow> py_error + path \<times> relationship list" where
  "Path_hydrate nodes rels sequence =
     (if \<not> length nodes \<ge> 1 then Inl AssertionError
      else if \<not> length sequence mod 2 = 0 then Inl AssertionError
      else
        and_then (py_getitem nodes 0) (\<lambda>last_node.
        and_then (hydrate_loop nodes sequence (enumerate 0 (slice_0_2 sequence))
                    \<lparr>st_rels = rels, st_entities = [RNode last_node],
                     st_last_node = last_node\<rparr>) (\<lambda>st.
          case map (deref (st_rels st)) (st_entities st) of
            [] \<Rightarrow> Inl TypeError
          | start_node # rels_and_nodes \<Rightarrow>
              Inr (Path_init start_node rels_and_nodes, st_rels st))))"

subsection \<open>Notions used to state the properties\<close>

text \<open>
  The element that \<^verbatim>\<open>xs[i]\<close> reads when \<open>i\<close> is in range, the position in
  \<open>rels\<close> that a selector names, and the two assignments of one iteration.
\<close>

definition py_nth :: "'a list \<Rightarrow> int \<Rightarrow> 'a" where
  "py_nth xs i = xs ! nat (if i < 0 then i + int (length xs) else i)"

definition rel_pos :: "int \<Rightarrow> nat" where
  "rel_pos rel_index = nat (\<bar>rel_index\<bar> - 1)"

definition assign_ends :: "int \<Rightarrow> node \<Rightarrow> node \<Rightarrow> relationship \<Rightarrow> relationship" where
  "assign_ends rel_index last_node next_node r =
     (if rel_index > 0
      then r\<lparr>rel_start := node_id last_node, rel_end := node_id next_node\<rparr>
      else r\<lparr>rel_start := node_id next_node, rel_end := node_id last_node\<rparr>)"

text \<open>
  The precondition of \<open>Path.hydrate\<close> on the sequence: an even number of entries, taken
  as pairs of a selector and a node index; the selector is not zero and its magnitude is
  at most the number of relationships, the node index is one that Python accepts for the
  node list (from \<open>-len(nodes)\<close> up to \<open>len(nodes) - 1\<close>, the indices from \<open>0\<close> included).
\<close>

definition valid_pair :: "nat \<Rightarrow> nat \<Rightarrow> int \<Rightarrow> int \<Rightarrow> bool" where
  "valid_pair n_nodes n_rels rel_index node_index =
     (rel_index \<noteq> 0 \<and> \<bar>rel_index\<bar> \<le> int n_rels \<and>
      - int n_nodes \<le> node_index \<and> node_index < int n_nodes)"

fun valid_sequence :: "nat \<Rightarrow> nat \<Rightarrow> int list \<Rightarrow> bool" where
  "valid_sequence n_nodes n_rels [] = True"
| "valid_sequence n_nodes n_rels [x] = False"
| "valid_sequence n_nodes n_rels (rel_index # node_index # rest) =
     (valid_pair n_nodes n_rels rel_index node_index \<and> valid_sequence n_nodes n_rels rest)"

text \<open>
  The state of the loop after \<open>m\<close> iterations on a valid input, without the checks: the
  proofs show that the loop of the source reaches exactly this state.
\<close>

primrec state_after :: "node list \<Rightarrow> relationship list \<Rightarrow> int list \<Rightarrow> nat \<Rightarrow> loop_state" where
  "state_after nodes rels sequence 0 =
     \<lparr>st_rels = rels, st_entities = [RNode (nodes ! 0)], st_last_node = nodes ! 0\<rparr>"
| "state_after nodes rels sequence (Suc m) =
     (let st = state_after nodes rels sequence m;
          rel_index = sequence ! (2 * m);
          next_node = py_nth nodes (sequence ! (2 * m + 1))
      in \<lparr>st_rels = (st_rels st)[rel_pos rel_index :=
                        assign_ends rel_index (st_last_node st) next_node
                          (st_rels st ! rel_pos rel_index)],
          st_entities = st_entities st @ [RRel (rel_pos rel_index), RNode next_node],
          st_last_node = next_node\<rparr>)"

text \<open>
  The properties of an entity as the specification words them: the base mapping merged
  with the named overrides, every entry whose value is null dropped.
\<close>

definition spec_properties :: "pydict \<Rightarrow> pydict \<Rightarrow> string \<Rightarrow> pyval option" where
  "spec_properties base overrides name =
     (case (case fmlookup overrides name of None \<Rightarrow> fmlookup base name | Some v \<Rightarrow> Some v) of
        None \<Rightarrow> None
      | Some v \<Rightarrow> if v = PNone then None else Some v)"

text \<open>The node of the example \<^verbatim>\<open>Node.hydrate(1, {"Person"}, {"name": "Ann", "nickname": None})\<close>.\<close>

definition example_ann :: node where
  "example_ann =
     Node_hydrate (Some 1) (Some {''Person''})
       (Some (fmap_of_list [(''name'', PStr ''Ann''), (''nickname'', PNone)]))"

text \<open>
  Equality of entities as the specification words it: both sides expose a resolvable
  identifier and the identifiers are equal. An entity that is not hydrated has none, and
  neither has an object that is not an entity.
\<close>

fun spec_resolvable_id :: "pyobj \<Rightarrow> int option" where
  "spec_resolvable_id (OEntity e) = entity_id e"
| "spec_resolvable_id (OVal v) = None"
| "spec_resolvable_id (OPath p) = None"

definition spec_entity_equal :: "entity \<Rightarrow> pyobj \<Rightarrow> bool" where
  "spec_entity_equal x y =
     (case (spec_resolvable_id (OEntity x), spec_resolvable_id y) of
        (Some i, Some j) \<Rightarrow> i = j
      | _ \<Rightarrow> False)"

text \<open>Example values: a node built without \<open>hydrate\<close>, a hash of identifiers, a small graph.\<close>

definition unhydrated_node :: node where
  "unhydrated_node = Node_init None None fmempty"

definition example_hash :: "int option \<Rightarrow> int" where
  "example_hash i = (case i of None \<Rightarrow> 0 | Some n \<Rightarrow> n)"

definition example_A :: node where
  "example_A = Node_hydrate (Some 0) (Some {''Person''}) None"

definition example_B :: node where
  "example_B = Node_hydrate (Some 1) (Some {''Person''}) None"

definition example_C :: node where
  "example_C = Node_hydrate (Some 2) None None"

definition example_R1 :: relationship where
  "example_R1 = Relationship_hydrate_unbound (Some 10) ''LIKES'' None"

definition example_R2 :: relationship where
  "example_R2 = Relationship_hydrate_unbound (Some 11) ''KNOWS'' None"

section \<open>Properties of entities\<close>

lemma fmlookup_Entity_init:
  "fmlookup (Entity_init properties kwproperties) k =
     (case fmlookup ((case properties of None \<Rightarrow> fmempty | Some d \<Rightarrow> d) ++\<^sub>f kwproperties) k of
        None \<Rightarrow> None
      | Some v \<Rightarrow> if v = PNone then None else Some v)"
  by (simp add: Entity_init_def Let_def split: option.splits)

lemma properties_hydrate:
  "node_properties (Node_hydrate i l p) = Entity_init p fmempty"
  "rel_properties (Relationship_hydrate i s e t p) = Entity_init p fmempty"
  by (simp_all add: Node_hydrate_def Node_init_def Relationship_hydrate_def
      Relationship_init_def Let_def)

lemma entity_properties_hydrate:
  "entity_properties (ENode (Node_hydrate i l p)) = Entity_init p fmempty"
  "entity_properties (ERel (Relationship_hydrate i s e t p)) = Entity_init p fmempty"
  by (simp_all add: properties_hydrate)

lemma Entity_init_spec:
  "fmlookup (Entity_init properties kw) name =
     spec_properties (case properties of None \<Rightarrow> fmempty | Some d \<Rightarrow> d) kw name"
  by (simp add: fmlookup_Entity_init spec_properties_def fmlookup_dom_iff split: option.splits)

lemma Entity_init_null_absent:
  "Entity_init (Some (fmupd name PNone d)) fmempty = Entity_init (Some (fmdrop name d)) fmempty"
  by (rule fmap_ext) (simp add: fmlookup_Entity_init split: option.splits)

lemma dict_ops_Entity_init:
  "dict_contains (Entity_init (Some d) fmempty) name =
     (fmlookup d name \<noteq> None \<and> fmlookup d name \<noteq> Some PNone)"
  "dict_get (Entity_init (Some d) fmempty) name dflt =
     (if fmlookup d name = None \<or> fmlookup d name = Some PNone then dflt else the (fmlookup d name))"
  "dict_len (Entity_init (Some d) fmempty) =
     fcard (ffilter (\<lambda>k. fmlookup d k \<noteq> Some PNone) (fmdom d))"
    apply (auto simp add: dict_contains_def fmlookup_dom_iff fmlookup_Entity_init split: option.splits)[1]
   apply (auto simp add: dict_get_def fmlookup_Entity_init split: option.splits)[1]
  apply (simp add: dict_len_def Entity_init_def Let_def)
  done

lemma example_ann_facts:
  "Entity_contains (ENode example_ann) ''name''"
  "Entity_get (ENode example_ann) ''nickname'' dflt = dflt"
  "Entity_len (ENode example_ann) = 1"
  unfolding example_ann_def
    apply (simp add: Entity_contains_def dict_contains_def fmlookup_dom_iff
      fmlookup_Entity_init properties_hydrate fmlookup_of_list)
   apply (simp add: Entity_get_def dict_get_def fmlookup_Entity_init properties_hydrate
      fmlookup_of_list)
  apply code_simp
  done

text \<open>
  Claim C5 (null-property filtering). The properties of a constructed entity are the base
  mapping merged with the keyword overrides, every entry whose value is \<open>None\<close> dropped;
  \<open>Node.hydrate\<close> and \<open>Relationship.hydrate\<close> construct with no overrides. A key with
  the value \<open>None\<close> is treated exactly like an absent key: the hydrated entity is the
  same as for the mapping without the key, and membership, \<open>get\<close> and the length see only
  the keys whose value is not \<open>None\<close>. For \<open>{"name": "Ann", "nickname": None}\<close>,
  \<open>"name"\<close> is a member, \<open>get("nickname")\<close> is the default and the length is 1.
\<close>

theorem C5_null_property_filtering:
  "fmlookup (Entity_init properties kwproperties) name =
     spec_properties (case properties of None \<Rightarrow> fmempty | Some d \<Rightarrow> d) kwproperties name
   \<and> entity_properties (ENode (Node_hydrate i l properties)) = Entity_init properties fmempty
   \<and> entity_properties (ERel (Relationship_hydrate j s e t properties)) =
       Entity_init properties fmempty
   \<and> Node_hydrate i l (Some (fmupd name PNone d)) = Node_hydrate i l (Some (fmdrop name d))
   \<and> Relationship_hydrate j s e t (Some (fmupd name PNone d)) =
       Relationship_hydrate j s e t (Some (fmdrop name d))
   \<and> Entity_contains (ENode (Node_hydrate i l (Some d))) name =
       (fmlookup d name \<noteq> None \<and> fmlookup d name \<noteq> Some PNone)
   \<and> Entity_get (ENode (Node_hydrate i l (Some d))) name dflt =
       (if fmlookup d name = None \<or> fmlookup d name = Some PNone then dflt
        else the (fmlookup d name))
   \<and> Entity_len (ENode (Node_hydrate i l (Some d))) =
       fcard (ffilter (\<lambda>k. fmlookup d k \<noteq> Some PNone) (fmdom d))
   \<and> Entity_contains (ENode example_ann) ''name''
   \<and> Entity_get (ENode example_ann) ''nickname'' PNone = PNone
   \<and> Entity_get (ENode example_ann) ''nickname'' dflt = dflt
   \<and> Entity_len (ENode example_ann) = 1"
proof -
  have n: "Node_hydrate i l (Some (fmupd name PNone d)) = Node_hydrate i l (Some (fmdrop name d))"
    by (simp add: Node_hydrate_def Node_init_def Let_def Entity_init_null_absent)
  have r: "Relationship_hydrate j s e t (Some (fmupd name PNone d)) =
       Relationship_hydrate j s e t (Some (fmdrop name d))"
    by (simp add: Relationship_hydrate_def Relationship_init_def Let_def Entity_init_null_absent)
  show ?thesis
    by (simp only: Entity_init_spec entity_properties_hydrate n r Entity_contains_def
        Entity_get_def Entity_len_def dict_ops_Entity_init
        example_ann_facts[unfolded Entity_contains_def Entity_get_def Entity_len_def] simp_thms)
qed

text \<open>
  Claim C10 (subscript access). \<open>entity[name]\<close> is \<open>entity.get(name)\<close> with the default
  \<open>None\<close>: it returns a value for every string key, and \<open>None\<close> for a key that is
  not a property; no \<open>KeyError\<close> is raised.
\<close>

theorem C10_getitem_never_fails:
  "Entity_getitem self name = Entity_get self name PNone
   \<and> (\<not> Entity_contains self name \<longrightarrow> Entity_getitem self name = PNone)"
  by (simp add: Entity_getitem_def Entity_get_def Entity_contains_def dict_get_def
      dict_contains_def fmlookup_dom_iff split: option.splits)

theorem C10_getitem_never_fails_witness:
  "\<not> Entity_contains (ENode example_ann) ''age''
   \<and> Entity_getitem (ENode example_ann) ''age'' = PNone
   \<and> Entity_getitem (ENode example_ann) ''age'' = Entity_get (ENode example_ann) ''age'' PNone"
proof -
  have h: "\<not> Entity_contains (ENode example_ann) ''age''"
    by (simp add: example_ann_def Entity_contains_def dict_contains_def fmlookup_dom_iff
      fmlookup_Entity_init properties_hydrate fmlookup_of_list)
  with C10_getitem_never_fails [of "ENode example_ann" "''age''"] show ?thesis by auto
qed

section \<open>Indexing, slices and one iteration of the loop\<close>

lemma py_index_Inr_iff:
  "py_index n i = Inr j \<longleftrightarrow>
     - int n \<le> i \<and> i < int n \<and> j = nat (if i < 0 then i + int n else i)"
  by (auto simp: py_index_def Let_def)

lemma py_index_Inl_iff:
  "(\<exists>e. py_index n i = Inl e) \<longleftrightarrow> \<not> (- int n \<le> i \<and> i < int n)"
  by (auto simp: py_index_def Let_def)

lemma py_getitem_in_range:
  "- int (length xs) \<le> i \<Longrightarrow> i < int (length xs) \<Longrightarrow> py_getitem xs i = Inr (py_nth xs i)"
  by (simp add: py_getitem_def py_index_def py_nth_def Let_def)

lemma py_getitem_out_of_range:
  "\<not> (- int (length xs) \<le> i \<and> i < int (length xs)) \<Longrightarrow> py_getitem xs i = Inl IndexError"
  by (auto simp add: py_getitem_def py_index_def py_nth_def Let_def)

lemma py_getitem_nat:
  "j < length xs \<Longrightarrow> py_getitem xs (int j) = Inr (xs ! j)"
  by (simp add: py_getitem_def py_index_def Let_def)

lemma length_slice_0_2: "length (slice_0_2 xs) = (length xs + 1) div 2"
  by (induction xs rule: slice_0_2.induct) simp_all

lemma nth_slice_0_2: "2 * i < length xs \<Longrightarrow> slice_0_2 xs ! i = xs ! (2 * i)"
proof (induction xs arbitrary: i rule: slice_0_2.induct)
  case (3 x y xs)
  then show ?case by (cases i) simp_all
qed simp_all

lemma slice_1_2_simps:
  "slice_1_2 [] = []" "slice_1_2 [x] = []" "slice_1_2 (x # y # xs) = y # slice_1_2 xs"
  by (simp_all add: slice_1_2_def) (cases xs; simp)

lemma slice_0_2_pairs: "slice_0_2 (concat (map (\<lambda>j. [f j, g j]) js)) = map f js"
  by (induction js) simp_all

lemma slice_1_2_pairs: "slice_1_2 (concat (map (\<lambda>j. [f j, g j]) js)) = map g js"
  by (induction js) (simp_all add: slice_1_2_simps)

lemma hydrate_loop_append:
  "hydrate_loop nodes sequence (ps @ qs) st =
     and_then (hydrate_loop nodes sequence ps st) (hydrate_loop nodes sequence qs)"
proof (induction ps arbitrary: st)
  case Nil
  show ?case by simp
next
  case (Cons p ps)
  show ?case by (cases "hydrate_step nodes sequence p st") (simp_all add: Cons.IH)
qed

lemma hydrate_step_valid:
  assumes "py_getitem sequence (2 * int i + 1) = Inr node_index"
    and "valid_pair (length nodes) (length (st_rels st)) rel_index node_index"
  shows "hydrate_step nodes sequence (i, rel_index) st =
           Inr \<lparr>st_rels = (st_rels st)[rel_pos rel_index :=
                            assign_ends rel_index (st_last_node st) (py_nth nodes node_index)
                              (st_rels st ! rel_pos rel_index)],
                st_entities = st_entities st @ [RRel (rel_pos rel_index), RNode (py_nth nodes node_index)],
                st_last_node = py_nth nodes node_index\<rparr>"
proof -
  from assms(2) have n: "py_getitem nodes node_index = Inr (py_nth nodes node_index)"
    by (simp add: valid_pair_def py_getitem_in_range)
  show ?thesis
  proof (cases "rel_index > 0")
    case True
    with assms(2) have "py_index (length (st_rels st)) (rel_index - 1) = Inr (rel_pos rel_index)"
      by (auto simp: py_index_Inr_iff valid_pair_def rel_pos_def)
    with True n assms(1) show ?thesis
      by (simp add: hydrate_step_def assign_ends_def)
  next
    case False
    with assms(2) have "py_index (length (st_rels st)) (- rel_index - 1) = Inr (rel_pos rel_index)"
      by (auto simp: py_index_Inr_iff valid_pair_def rel_pos_def)
    with False n assms(1) assms(2) show ?thesis
      by (simp add: hydrate_step_def assign_ends_def valid_pair_def)
  qed
qed

lemma hydrate_step_Inr_valid:
  assumes "hydrate_step nodes sequence (i, rel_index) st = Inr st'"
    and "py_getitem sequence (2 * int i + 1) = Inr node_index"
  shows "valid_pair (length nodes) (length (st_rels st)) rel_index node_index"
proof -
  from assms have z: "rel_index \<noteq> 0"
    by (auto simp: hydrate_step_def split: if_splits)
  have n: "- int (length nodes) \<le> node_index \<and> node_index < int (length nodes)"
  proof (rule ccontr)
    assume "\<not> ?thesis"
    then have "py_getitem nodes node_index = Inl IndexError"
      by (rule py_getitem_out_of_range)
    with assms z show False by (simp add: hydrate_step_def)
  qed
  then have nn: "py_getitem nodes node_index = Inr (py_nth nodes node_index)"
    by (simp add: py_getitem_in_range)
  have "\<bar>rel_index\<bar> \<le> int (length (st_rels st))"
  proof (cases "rel_index > 0")
    case True
    with assms z nn obtain r where "py_index (length (st_rels st)) (rel_index - 1) = Inr r"
      by (cases "py_index (length (st_rels st)) (rel_index - 1)") (auto simp: hydrate_step_def)
    with True show ?thesis by (auto simp: py_index_Inr_iff)
  next
    case False
    with assms z nn obtain r where "py_index (length (st_rels st)) (- rel_index - 1) = Inr r"
      by (cases "py_index (length (st_rels st)) (- rel_index - 1)") (auto simp: hydrate_step_def)
    with False show ?thesis by (auto simp: py_index_Inr_iff)
  qed
  with z n show ?thesis by (simp add: valid_pair_def)
qed

section \<open>The loop of Path.hydrate\<close>

text \<open>
  On an even-length sequence the loop runs over the items \<open>(m, sequence[2m])\<close>. As long
  as the pairs are valid, the state after \<open>m\<close> iterations is \<open>state_after\<close>; and a
  run that succeeds has met only valid pairs.
\<close>

lemma and_then_Inr_iff:
  "and_then x f = Inr y \<longleftrightarrow> (\<exists>z. x = Inr z \<and> f z = Inr y)"
  by (cases x) simp_all

lemma hydrate_loop_single:
  "hydrate_loop nodes sequence [p] st = hydrate_step nodes sequence p st"
  by (cases "hydrate_step nodes sequence p st") simp_all

lemma length_enumerate_slice:
  "even (length sequence) \<Longrightarrow>
   length (enumerate 0 (slice_0_2 sequence)) = length sequence div 2"
  by (auto simp: length_slice_0_2 elim: evenE)

lemma nth_enumerate_slice:
  assumes "even (length sequence)" and "m < length sequence div 2"
  shows "enumerate 0 (slice_0_2 sequence) ! m = (m, sequence ! (2 * m))"
proof -
  from assms have "2 * m < length sequence" by (auto elim: evenE)
  moreover from assms have "m < length (slice_0_2 sequence)"
    by (auto simp: length_slice_0_2 elim: evenE)
  ultimately show ?thesis
    by (simp add: nth_enumerate_eq nth_slice_0_2)
qed

lemma take_Suc_enumerate_slice:
  assumes "even (length sequence)" and "m < length sequence div 2"
  shows "take (Suc m) (enumerate 0 (slice_0_2 sequence)) =
           take m (enumerate 0 (slice_0_2 sequence)) @ [(m, sequence ! (2 * m))]"
  using assms
  by (simp add: take_Suc_conv_app_nth length_enumerate_slice nth_enumerate_slice
      del: length_enumerate)

lemma length_state_after:
  "length (st_rels (state_after nodes rels sequence m)) = length rels"
  by (induction m) (simp_all add: Let_def)

lemma getitem_odd_position:
  assumes "even (length sequence)" and "m < length sequence div 2"
  shows "py_getitem sequence (2 * int m + 1) = Inr (sequence ! (2 * m + 1))"
proof -
  from assms have "2 * m + 1 < length sequence" by (auto elim: evenE)
  then have "py_getitem sequence (int (2 * m + 1)) = Inr (sequence ! (2 * m + 1))"
    by (rule py_getitem_nat)
  then show ?thesis by (simp add: add.commute)
qed

lemma hydrate_loop_prefix:
  assumes "even (length sequence)" and "m \<le> length sequence div 2"
    and "\<forall>j<m. valid_pair (length nodes) (length rels)
                  (sequence ! (2 * j)) (sequence ! (2 * j + 1))"
  shows "hydrate_loop nodes sequence (take m (enumerate 0 (slice_0_2 sequence)))
           (state_after nodes rels sequence 0) = Inr (state_after nodes rels sequence m)"
  using assms(2,3)
proof (induction m)
  case 0
  show ?case by simp
next
  case (Suc m)
  let ?st = "state_after nodes rels sequence m"
  from Suc.prems have m: "m < length sequence div 2" by simp
  from Suc have IH: "hydrate_loop nodes sequence (take m (enumerate 0 (slice_0_2 sequence)))
           (state_after nodes rels sequence 0) = Inr ?st" by simp
  from Suc.prems have "valid_pair (length nodes) (length (st_rels ?st))
                  (sequence ! (2 * m)) (sequence ! (2 * m + 1))"
    by (simp add: length_state_after)
  with getitem_odd_position [OF assms(1) m]
  have "hydrate_step nodes sequence (m, sequence ! (2 * m)) ?st =
          Inr (state_after nodes rels sequence (Suc m))"
    by (simp add: hydrate_step_valid Let_def)
  with IH show ?case
    by (simp add: take_Suc_enumerate_slice [OF assms(1) m] hydrate_loop_append
        hydrate_loop_single)
qed

lemma hydrate_loop_prefix_valid:
  assumes "even (length sequence)" and "m \<le> length sequence div 2"
    and "hydrate_loop nodes sequence (take m (enumerate 0 (slice_0_2 sequence)))
           (state_after nodes rels sequence 0) = Inr st"
  shows "\<forall>j<m. valid_pair (length nodes) (length rels)
                  (sequence ! (2 * j)) (sequence ! (2 * j + 1))"
  using assms(2,3)
proof (induction m arbitrary: st)
  case 0
  show ?case by simp
next
  case (Suc m)
  let ?E = "enumerate 0 (slice_0_2 sequence)"
  let ?init = "state_after nodes rels sequence 0"
  from Suc.prems have m: "m < length sequence div 2" by simp
  from Suc.prems(2) obtain st1 where
    l: "hydrate_loop nodes sequence (take m ?E) ?init = Inr st1"
    and s: "hydrate_step nodes sequence (m, sequence ! (2 * m)) st1 = Inr st"
    by (auto simp: take_Suc_enumerate_slice [OF assms(1) m] hydrate_loop_append
        hydrate_loop_single and_then_Inr_iff)
  from Suc.IH [OF _ l] m
  have v: "\<forall>j<m. valid_pair (length nodes) (length rels)
                  (sequence ! (2 * j)) (sequence ! (2 * j + 1))" by simp
  with hydrate_loop_prefix [OF assms(1), of m nodes rels] m l
  have "st1 = state_after nodes rels sequence m" by simp
  with hydrate_step_Inr_valid [OF s getitem_odd_position [OF assms(1) m]]
  have "valid_pair (length nodes) (length rels) (sequence ! (2 * m)) (sequence ! (2 * m + 1))"
    by (simp add: length_state_after)
  with v show ?case by (auto simp: less_Suc_eq)
qed

lemma valid_sequence_iff:
  "valid_sequence n_nodes n_rels sequence \<longleftrightarrow>
     even (length sequence) \<and>
     (\<forall>j<length sequence div 2.
        valid_pair n_nodes n_rels (sequence ! (2 * j)) (sequence ! (2 * j + 1)))"
proof (induction n_nodes n_rels sequence rule: valid_sequence.induct)
  case (3 n_nodes n_rels rel_index node_index rest)
  show ?case
    by (simp add: 3 All_less_Suc2) blast
qed simp_all

text \<open>The state after \<open>m\<close> iterations: the entities, the last node and the store.\<close>

lemma st_entities_state_after:
  "st_entities (state_after nodes rels sequence m) =
     RNode (nodes ! 0) #
     concat (map (\<lambda>j. [RRel (rel_pos (sequence ! (2 * j))),
                         RNode (py_nth nodes (sequence ! (2 * j + 1)))]) [0..<m])"
  by (induction m) (simp_all add: Let_def)

lemma st_last_node_state_after:
  "st_last_node (state_after nodes rels sequence m) =
     (if m = 0 then nodes ! 0 else py_nth nodes (sequence ! (2 * m - 1)))"
  by (cases m) (simp_all add: Let_def)

lemma assign_ends_absorb:
  "assign_ends rel_index a b (r\<lparr>rel_start := s, rel_end := e\<rparr>) = assign_ends rel_index a b r"
  by (simp add: assign_ends_def)

lemma assign_ends_frame:
  "\<exists>s e. assign_ends rel_index a b r = r\<lparr>rel_start := s, rel_end := e\<rparr>"
  by (auto simp: assign_ends_def)

lemma state_after_frame:
  "x < length rels \<Longrightarrow>
   \<exists>s e. st_rels (state_after nodes rels sequence m) ! x = (rels ! x)\<lparr>rel_start := s, rel_end := e\<rparr>"
proof (induction m)
  case 0
  show ?case
    by (intro exI [of _ "rel_start (rels ! x)"] exI [of _ "rel_end (rels ! x)"]) simp
next
  case (Suc m)
  let ?st = "state_after nodes rels sequence m"
  let ?k = "rel_pos (sequence ! (2 * m))"
  from Suc obtain s e where
    old: "st_rels ?st ! x = (rels ! x)\<lparr>rel_start := s, rel_end := e\<rparr>" by blast
  show ?case
  proof (cases "x = ?k")
    case True
    with Suc.prems old show ?thesis
      using assign_ends_frame [of "sequence ! (2 * m)" "st_last_node ?st"
          "py_nth nodes (sequence ! (2 * m + 1))" "rels ! x"]
      by (simp add: Let_def length_state_after assign_ends_absorb)
  next
    case False
    with old show ?thesis by (auto simp: Let_def)
  qed
qed

lemma state_after_untouched:
  "x < length rels \<Longrightarrow> \<forall>j<m. rel_pos (sequence ! (2 * j)) \<noteq> x \<Longrightarrow>
   st_rels (state_after nodes rels sequence m) ! x = rels ! x"
  by (induction m) (simp_all add: Let_def)

lemma state_after_last_write:
  assumes "j < m" and "rel_pos (sequence ! (2 * j)) < length rels"
    and "\<forall>j'. j < j' \<and> j' < m \<longrightarrow> rel_pos (sequence ! (2 * j')) \<noteq> rel_pos (sequence ! (2 * j))"
  shows "st_rels (state_after nodes rels sequence m) ! rel_pos (sequence ! (2 * j)) =
           assign_ends (sequence ! (2 * j))
             (st_last_node (state_after nodes rels sequence j))
             (py_nth nodes (sequence ! (2 * j + 1)))
             (rels ! rel_pos (sequence ! (2 * j)))"
  using assms(1,3)
proof (induction m)
  case 0
  then show ?case by simp
next
  case (Suc m)
  let ?k = "rel_pos (sequence ! (2 * j))"
  show ?case
  proof (cases "j = m")
    case True
    from state_after_frame [OF assms(2), of nodes sequence m] obtain s e where
      "st_rels (state_after nodes rels sequence m) ! ?k = (rels ! ?k)\<lparr>rel_start := s, rel_end := e\<rparr>"
      by blast
    with True assms(2) show ?thesis
      by (simp add: Let_def length_state_after assign_ends_absorb)
  next
    case False
    with Suc.prems have "j < m" and "rel_pos (sequence ! (2 * m)) \<noteq> ?k" by auto
    with Suc show ?thesis by (simp add: Let_def)
  qed
qed

text \<open>
  \<open>Path.hydrate\<close> returns a path exactly on a non-empty node list and a valid sequence,
  and then the path and the final store have a closed form.
\<close>

lemma map_deref_pairs:
  "map (deref store) (concat (map (\<lambda>j. [RRel (f j), RNode (g j)]) js)) =
     concat (map (\<lambda>j. [ERel (store ! f j), ENode (g j)]) js)"
  by (induction js) simp_all

lemma Path_hydrate_valid:
  assumes "nodes \<noteq> []" and "valid_sequence (length nodes) (length rels) sequence"
  shows "Path_hydrate nodes rels sequence =
     Inr (\<lparr>path_nodes = ENode (nodes ! 0) #
             map (\<lambda>j. ENode (py_nth nodes (sequence ! (2 * j + 1)))) [0..<length sequence div 2],
           path_relationships =
             map (\<lambda>j. ERel (st_rels (state_after nodes rels sequence (length sequence div 2))
                               ! rel_pos (sequence ! (2 * j)))) [0..<length sequence div 2]\<rparr>,
          st_rels (state_after nodes rels sequence (length sequence div 2)))"
proof -
  let ?n = "length sequence div 2"
  from assms(2) have ev: "even (length sequence)"
    and v: "\<forall>j<?n. valid_pair (length nodes) (length rels)
                  (sequence ! (2 * j)) (sequence ! (2 * j + 1))"
    by (simp_all add: valid_sequence_iff)
  from assms(1) have g: "py_getitem nodes 0 = Inr (nodes ! 0)"
    using py_getitem_nat [of 0 nodes] by simp
  from hydrate_loop_prefix [OF ev le_refl v]
  have l: "hydrate_loop nodes sequence (enumerate 0 (slice_0_2 sequence))
           (state_after nodes rels sequence 0) = Inr (state_after nodes rels sequence ?n)"
    by (simp add: length_enumerate_slice [OF ev] del: length_enumerate)
  from assms(1) have "Suc 0 \<le> length nodes" by (cases nodes) simp_all
  with ev g l show ?thesis
    by (simp add: Path_hydrate_def Path_init_def st_entities_state_after map_deref_pairs
        slice_0_2_pairs slice_1_2_pairs)
qed

lemma Path_hydrate_Inr_valid:
  assumes "Path_hydrate nodes rels sequence = Inr r"
  shows "nodes \<noteq> [] \<and> valid_sequence (length nodes) (length rels) sequence"
proof -
  from assms have n: "nodes \<noteq> []" and ev: "even (length sequence)"
    by (auto simp: Path_hydrate_def split: if_splits)
  from n have g: "py_getitem nodes 0 = Inr (nodes ! 0)"
    using py_getitem_nat [of 0 nodes] by simp
  from n have n1: "Suc 0 \<le> length nodes" by (cases nodes) simp_all
  from ev have e2: "length sequence mod 2 = 0" by presburger
  from assms n1 e2 g obtain st where
    "hydrate_loop nodes sequence (enumerate 0 (slice_0_2 sequence))
           (state_after nodes rels sequence 0) = Inr st"
    by (auto simp: Path_hydrate_def and_then_Inr_iff)
  with hydrate_loop_prefix_valid [OF ev, of "length sequence div 2" nodes rels st]
  have "\<forall>j<length sequence div 2. valid_pair (length nodes) (length rels)
                  (sequence ! (2 * j)) (sequence ! (2 * j + 1))"
    by (simp add: length_enumerate_slice [OF ev] del: length_enumerate)
  with n ev show ?thesis by (simp add: valid_sequence_iff)
qed

section \<open>Equality and hashing\<close>

text \<open>
  The equality of the specification fails on the code for two entities without an
  identifier: \<open>None == None\<close> is true, and the code answers equal.
\<close>

theorem C4_counterexample:
  "Entity_eq (ENode unhydrated_node) (OEntity (ENode unhydrated_node)) = Inr True
   \<and> \<not> spec_entity_equal (ENode unhydrated_node) (OEntity (ENode unhydrated_node))"
  by (simp add: Entity_eq_def spec_entity_equal_def unhydrated_node_def Node_init_def)

text \<open>
  Claim C4 (entity equality), as amended. \<open>x == y\<close> never raises. It is true exactly when
  \<open>y\<close> has the attribute \<open>id\<close> and the two values of \<open>id\<close> are equal: two resolvable
  identifiers that are equal, or two unset identifiers. An object without the attribute, a
  plain value such as an integer or a path, is not equal to any entity.
\<close>

theorem C4_entity_equality:
  "Entity_eq x y =
     Inr (spec_entity_equal x y \<or> (entity_id x = None \<and> getattr_id y = Inr None))
   \<and> Entity_eq x (OEntity e) = Inr (entity_id x = entity_id e)
   \<and> Entity_eq x (OVal v) = Inr False
   \<and> Entity_eq x (OPath p) = Inr False
   \<and> Entity_eq (ENode (Node_hydrate i l d)) (OVal (PInt n)) = Inr False"
  by (cases y) (auto simp: Entity_eq_def spec_entity_equal_def split: option.splits)

lemma Path_start_Cons: "Path_start \<lparr>path_nodes = s # ns, path_relationships = rs\<rparr> = Inr s"
  by (simp add: Path_start_def py_getitem_def py_index_def)

lemma Entity_eq_entity: "Entity_eq x (OEntity e) = Inr (entity_id x = entity_id e)"
  by (simp add: Entity_eq_def)

lemma Entity_eq_not_entity:
  "Entity_eq x (OVal v) = Inr False" "Entity_eq x (OPath p) = Inr False"
  by (simp_all add: Entity_eq_def)

lemma tuple_eq_list_all2:
  "tuple_eq xs ys = Inr (list_all2 (\<lambda>a b. entity_id a = entity_id b) xs ys)"
  by (induction xs ys rule: tuple_eq.induct) (simp_all add: Entity_eq_entity)

lemma Path_eq_paths:
  "Path_eq \<lparr>path_nodes = s1 # ns1, path_relationships = rs1\<rparr>
     (OPath \<lparr>path_nodes = s2 # ns2, path_relationships = rs2\<rparr>) =
   Inr (entity_id s1 = entity_id s2 \<and> list_all2 (\<lambda>a b. entity_id a = entity_id b) rs1 rs2)"
  by (simp add: Path_eq_def Path_start_Cons Entity_eq_entity tuple_eq_list_all2)

lemma Path_eq_foreign:
  "Path_eq \<lparr>path_nodes = s1 # ns1, path_relationships = rs1\<rparr> (OVal v) = Inr False"
  "Path_eq \<lparr>path_nodes = s1 # ns1, path_relationships = rs1\<rparr> (OEntity e) = Inr False"
   apply (simp add: Path_eq_def Path_start_Cons)
  apply (cases e)
   apply (simp_all add: Path_eq_def Path_start_Cons Entity_eq_not_entity)
  done

lemma foldl_xor_hash:
  "foldl (\<lambda>value relationship. value XOR Entity_hash h relationship) a rs =
     fold (\<lambda>r v. v XOR Entity_hash h r) rs a"
  by (simp add: foldl_conv_fold)

lemma fold_xor_perm:
  assumes "mset rs1 = mset rs2"
  shows "fold (\<lambda>r v. v XOR Entity_hash h r) rs1 = fold (\<lambda>r (v::int). v XOR Entity_hash h r) rs2"
  by (rule fold_multiset_equiv[OF _ assms]) (auto simp: fun_eq_iff ac_simps)

lemma Path_hash_Cons:
  "Path_hash h \<lparr>path_nodes = s # ns, path_relationships = rs\<rparr> =
     Inr (fold (\<lambda>r v. v XOR Entity_hash h r) rs (Entity_hash h s))"
  by (simp add: Path_hash_def Path_start_Cons foldl_conv_fold)

lemma fold_xor_ids:
  "list_all2 (\<lambda>a b. entity_id a = entity_id b) rs1 rs2 \<Longrightarrow>
   fold (\<lambda>r v. v XOR Entity_hash h r) rs1 a = fold (\<lambda>r (v::int). v XOR Entity_hash h r) rs2 a"
  by (induction rs1 rs2 arbitrary: a rule: list_all2_induct) (simp_all add: Entity_hash_def)

text \<open>
  Claim C6 (path equality). Two paths are equal exactly when their start nodes are equal
  and their relationship tuples have the same length and equal items at each position;
  the other nodes of the paths do not occur in the result. A path compared with a plain
  value or with an entity is not equal, and nothing is raised.
\<close>

theorem C6_path_equality:
  "Path_eq \<lparr>path_nodes = s1 # ns1, path_relationships = rs1\<rparr>
     (OPath \<lparr>path_nodes = s2 # ns2, path_relationships = rs2\<rparr>) =
     Inr (Entity_eq s1 (OEntity s2) = Inr True
          \<and> list_all2 (\<lambda>a b. Entity_eq a (OEntity b) = Inr True) rs1 rs2)
   \<and> Path_eq (Path_init s1 rn1) (OPath (Path_init s2 rn2)) =
     Inr (Entity_eq s1 (OEntity s2) = Inr True
          \<and> list_all2 (\<lambda>a b. Entity_eq a (OEntity b) = Inr True)
               (slice_0_2 rn1) (slice_0_2 rn2))
   \<and> Path_eq (Path_init s1 rn1) (OVal v) = Inr False
   \<and> Path_eq (Path_init s1 rn1) (OEntity e) = Inr False"
  by (simp add: Path_init_def Path_eq_paths Path_eq_foreign Entity_eq_entity)

text \<open>
  Claim C7 (path hashing). The hash of a path is the exclusive-or of the hash of its start
  node and of the hashes of its relationships. Two paths with equal start nodes whose
  relationship tuples are permutations of one another have the same hash, and so have two
  equal paths.
\<close>

theorem C7_path_hash:
  "Path_hash h \<lparr>path_nodes = s1 # ns1, path_relationships = rs1\<rparr> =
     Inr (fold (XOR) (map (Entity_hash h) rs1) (Entity_hash h s1))
   \<and> (Entity_eq s1 (OEntity s2) = Inr True \<and> mset rs1 = mset rs2 \<longrightarrow>
        Path_hash h \<lparr>path_nodes = s1 # ns1, path_relationships = rs1\<rparr> =
        Path_hash h \<lparr>path_nodes = s2 # ns2, path_relationships = rs2\<rparr>)
   \<and> (Path_eq \<lparr>path_nodes = s1 # ns1, path_relationships = rs1\<rparr>
          (OPath \<lparr>path_nodes = s2 # ns2, path_relationships = rs2\<rparr>) = Inr True \<longrightarrow>
        Path_hash h \<lparr>path_nodes = s1 # ns1, path_relationships = rs1\<rparr> =
        Path_hash h \<lparr>path_nodes = s2 # ns2, path_relationships = rs2\<rparr>)"
proof (intro conjI impI)
  show "Path_hash h \<lparr>path_nodes = s1 # ns1, path_relationships = rs1\<rparr> =
     Inr (fold (XOR) (map (Entity_hash h) rs1) (Entity_hash h s1))"
  proof -
    have "(\<lambda>r v. v XOR Entity_hash h r) = (\<lambda>r. (XOR) (Entity_hash h r))"
      by (auto simp: fun_eq_iff ac_simps)
    then show ?thesis
      by (simp add: Path_hash_Cons fold_map comp_def)
  qed
next
  assume a: "Entity_eq s1 (OEntity s2) = Inr True \<and> mset rs1 = mset rs2"
  then have "Entity_hash h s1 = Entity_hash h s2"
    by (simp add: Entity_eq_entity Entity_hash_def)
  moreover from a have "mset rs1 = mset rs2" ..
  then have "fold (\<lambda>r v. v XOR Entity_hash h r) rs1 = fold (\<lambda>r v. v XOR Entity_hash h r) rs2"
    by (rule fold_xor_perm)
  ultimately show "Path_hash h \<lparr>path_nodes = s1 # ns1, path_relationships = rs1\<rparr> =
        Path_hash h \<lparr>path_nodes = s2 # ns2, path_relationships = rs2\<rparr>"
    by (simp add: Path_hash_Cons)
next
  assume "Path_eq \<lparr>path_nodes = s1 # ns1, path_relationships = rs1\<rparr>
          (OPath \<lparr>path_nodes = s2 # ns2, path_relationships = rs2\<rparr>) = Inr True"
  then have i: "entity_id s1 = entity_id s2"
    and l: "list_all2 (\<lambda>a b. entity_id a = entity_id b) rs1 rs2"
    by (simp_all add: Path_eq_paths)
  from i have "Entity_hash h s1 = Entity_hash h s2"
    by (simp add: Entity_hash_def)
  with fold_xor_ids [OF l, of h "Entity_hash h s1"]
  show "Path_hash h \<lparr>path_nodes = s1 # ns1, path_relationships = rs1\<rparr> =
        Path_hash h \<lparr>path_nodes = s2 # ns2, path_relationships = rs2\<rparr>"
    by (simp add: Path_hash_Cons)
qed

theorem C7_path_hash_witness:
  "Entity_eq (ENode example_A) (OEntity (ENode example_A)) = Inr True
   \<and> mset [ERel example_R1, ERel example_R2] = mset [ERel example_R2, ERel example_R1]
   \<and> Path_hash example_hash
       \<lparr>path_nodes = [ENode example_A, ENode example_B, ENode example_C],
        path_relationships = [ERel example_R1, ERel example_R2]\<rparr> =
     Path_hash example_hash
       \<lparr>path_nodes = [ENode example_A, ENode example_C, ENode example_B],
        path_relationships = [ERel example_R2, ERel example_R1]\<rparr>
   \<and> Path_eq \<lparr>path_nodes = [ENode example_A, ENode example_B],
               path_relationships = [ERel example_R1]\<rparr>
        (OPath \<lparr>path_nodes = [ENode example_A, ENode example_C],
                path_relationships = [ERel example_R1]\<rparr>) = Inr True
   \<and> Path_hash example_hash
       \<lparr>path_nodes = [ENode example_A, ENode example_B],
        path_relationships = [ERel example_R1]\<rparr> =
     Path_hash example_hash
       \<lparr>path_nodes = [ENode example_A, ENode example_C],
        path_relationships = [ERel example_R1]\<rparr>"
proof -
  have e: "Entity_eq (ENode example_A) (OEntity (ENode example_A)) = Inr True"
    by (simp add: Entity_eq_entity)
  have m: "mset [ERel example_R1, ERel example_R2] = mset [ERel example_R2, ERel example_R1]"
    by (simp add: add_mset_commute)
  have p: "Path_eq \<lparr>path_nodes = [ENode example_A, ENode example_B],
               path_relationships = [ERel example_R1]\<rparr>
        (OPath \<lparr>path_nodes = [ENode example_A, ENode example_C],
                path_relationships = [ERel example_R1]\<rparr>) = Inr True"
    by (simp add: Path_eq_paths)
  from e m
    C7_path_hash [of example_hash "ENode example_A" "[ENode example_B, ENode example_C]"
      "[ERel example_R1, ERel example_R2]" "ENode example_A" "[ERel example_R2, ERel example_R1]"
      "[ENode example_C, ENode example_B]"]
  have h1: "Path_hash example_hash
       \<lparr>path_nodes = [ENode example_A, ENode example_B, ENode example_C],
        path_relationships = [ERel example_R1, ERel example_R2]\<rparr> =
     Path_hash example_hash
       \<lparr>path_nodes = [ENode example_A, ENode example_C, ENode example_B],
        path_relationships = [ERel example_R2, ERel example_R1]\<rparr>"
    by blast
  from p
    C7_path_hash [of example_hash "ENode example_A" "[ENode example_B]"
      "[ERel example_R1]" "ENode example_A" "[ERel example_R1]" "[ENode example_C]"]
  have h2: "Path_hash example_hash
       \<lparr>path_nodes = [ENode example_A, ENode example_B],
        path_relationships = [ERel example_R1]\<rparr> =
     Path_hash example_hash
       \<lparr>path_nodes = [ENode example_A, ENode example_C],
        path_relationships = [ERel example_R1]\<rparr>"
    by blast
  show ?thesis by (intro conjI e m p h1 h2)
qed

section \<open>The result of Path.hydrate\<close>

lemma py_getitem_last: "xs \<noteq> [] \<Longrightarrow> py_getitem xs (- 1) = Inr (last xs)"
  by (cases xs rule: rev_cases) (simp_all add: py_getitem_def py_index_def Let_def nat_add_distrib)

lemma zero_selector_invalid:
  assumes "2 * i < length sequence" and "sequence ! (2 * i) = 0"
  shows "\<not> valid_sequence n_nodes n_rels sequence"
proof
  assume v: "valid_sequence n_nodes n_rels sequence"
  then have "even (length sequence)" by (simp add: valid_sequence_iff)
  with assms(1) have "i < length sequence div 2" by (auto elim: evenE)
  with v have "valid_pair n_nodes n_rels (sequence ! (2 * i)) (sequence ! (2 * i + 1))"
    by (simp add: valid_sequence_iff)
  with assms(2) show False by (simp add: valid_pair_def)
qed

text \<open>
  Claim C3 (precondition enforcement). When the sequence has odd length, or the node list
  is empty, or some entry at an even position of the sequence is zero, \<open>Path.hydrate\<close>
  ends with an exception and returns no path.
\<close>

theorem C3_precondition_enforcement:
  "odd (length sequence) \<or> nodes = [] \<or> (\<exists>i. 2 * i < length sequence \<and> sequence ! (2 * i) = 0)
   \<Longrightarrow> (\<exists>e. Path_hydrate nodes rels sequence = Inl e) \<and>
       (\<forall>r. Path_hydrate nodes rels sequence \<noteq> Inr r)"
proof -
  assume a: "odd (length sequence) \<or> nodes = [] \<or>
             (\<exists>i. 2 * i < length sequence \<and> sequence ! (2 * i) = 0)"
  have n: "Path_hydrate nodes rels sequence \<noteq> Inr r" for r
  proof
    assume "Path_hydrate nodes rels sequence = Inr r"
    then have "nodes \<noteq> []" and v: "valid_sequence (length nodes) (length rels) sequence"
      using Path_hydrate_Inr_valid by blast+
    moreover from v have "even (length sequence)" by (simp add: valid_sequence_iff)
    moreover note a
    ultimately obtain i where "2 * i < length sequence" and "sequence ! (2 * i) = 0"
      by blast
    with v show False using zero_selector_invalid by blast
  qed
  then show ?thesis by (cases "Path_hydrate nodes rels sequence") auto
qed

theorem C3_precondition_enforcement_witness:
  "odd (length [1::int]) \<and>
   (\<exists>e. Path_hydrate [example_A] [example_R1] [1] = Inl e) \<and>
   (\<exists>e. Path_hydrate [] [example_R1] [] = Inl e) \<and>
   (2 * 1 < length [1, 0, 0, 0 :: int] \<and> [1, 0, 0, 0 :: int] ! (2 * 1) = 0) \<and>
   (\<exists>e. Path_hydrate [example_A] [example_R1] [1, 0, 0, 0] = Inl e)"
proof -
  have h1: "odd (length [1::int])" by simp
  have h3: "2 * 1 < length [1, 0, 0, 0 :: int] \<and> [1, 0, 0, 0 :: int] ! (2 * 1) = 0" by simp
  then have h3': "\<exists>i. 2 * i < length [1, 0, 0, 0 :: int] \<and> [1, 0, 0, 0 :: int] ! (2 * i) = 0"
    by blast
  from C3_precondition_enforcement [of "[1]" "[example_A]" "[example_R1]"] h1
  have c1: "\<exists>e. Path_hydrate [example_A] [example_R1] [1] = Inl e" by blast
  from C3_precondition_enforcement [of "[]" "[]" "[example_R1]"]
  have c2: "\<exists>e. Path_hydrate [] [example_R1] [] = Inl e" by blast
  from C3_precondition_enforcement [of "[1, 0, 0, 0]" "[example_A]" "[example_R1]"] h3'
  have c3: "\<exists>e. Path_hydrate [example_A] [example_R1] [1, 0, 0, 0] = Inl e" by blast
  from h1 c1 c2 h3 c3 show ?thesis by blast
qed

text \<open>
  Claim C8 (shape of the path). On a non-empty node list and a valid sequence (even length,
  selectors not zero and within \<open>rels\<close>, node indices within \<open>nodes\<close>, where an index
  may also count from the end as Python allows) \<open>Path.hydrate\<close> returns a path with one
  node more than relationships; its length is the number of relationships, half the length
  of the sequence; its start is the first node and its end the last node of the walk, the
  node that the last pair selects.
\<close>

theorem C8_path_shape:
  assumes "nodes \<noteq> []" and "valid_sequence (length nodes) (length rels) sequence"
  shows "\<exists>path rels'. Path_hydrate nodes rels sequence = Inr (path, rels')
           \<and> length (path_nodes path) = length (path_relationships path) + 1
           \<and> Path_len path = length (path_relationships path)
           \<and> Path_len path = length sequence div 2
           \<and> Path_start path = Inr (hd (path_nodes path))
           \<and> Path_start path = Inr (ENode (nodes ! 0))
           \<and> Path_end path = Inr (last (path_nodes path))
           \<and> Path_end path =
               Inr (ENode (if sequence = [] then nodes ! 0 else py_nth nodes (last sequence)))"
proof -
  let ?n = "length sequence div 2"
  let ?p = "\<lparr>path_nodes = ENode (nodes ! 0) #
             map (\<lambda>j. ENode (py_nth nodes (sequence ! (2 * j + 1)))) [0..<?n],
           path_relationships =
             map (\<lambda>j. ERel (st_rels (state_after nodes rels sequence ?n)
                               ! rel_pos (sequence ! (2 * j)))) [0..<?n]\<rparr>"
  from assms(2) have ev: "even (length sequence)" by (simp add: valid_sequence_iff)
  have l: "last (path_nodes ?p) =
             ENode (if sequence = [] then nodes ! 0 else py_nth nodes (last sequence))"
  proof (cases "sequence = []")
    case True
    then show ?thesis by simp
  next
    case False
    with ev obtain k where k: "?n = Suc k" and len: "length sequence = 2 * k + 2"
      by (cases ?n) (auto elim!: evenE)
    from False len have "last sequence = sequence ! (2 * k + 1)"
      by (simp add: last_conv_nth)
    with False k show ?thesis by simp
  qed
  have "Path_hydrate nodes rels sequence = Inr (?p, st_rels (state_after nodes rels sequence ?n))"
    by (rule Path_hydrate_valid [OF assms])
  moreover have "length (path_nodes ?p) = length (path_relationships ?p) + 1" by simp
  moreover have "Path_len ?p = length (path_relationships ?p)" by (simp add: Path_len_def)
  moreover have "Path_len ?p = ?n" by (simp add: Path_len_def)
  moreover have "Path_start ?p = Inr (hd (path_nodes ?p))"
    by (simp add: Path_start_Cons)
  moreover have "Path_start ?p = Inr (ENode (nodes ! 0))" by (simp add: Path_start_Cons)
  moreover have e: "Path_end ?p = Inr (last (path_nodes ?p))"
    unfolding Path_end_def by (rule py_getitem_last) simp
  moreover from e l have "Path_end ?p =
               Inr (ENode (if sequence = [] then nodes ! 0 else py_nth nodes (last sequence)))"
    by simp
  ultimately show ?thesis by blast
qed

theorem C8_path_shape_witness:
  "([example_A, example_B, example_C] \<noteq> []
    \<and> valid_sequence (length [example_A, example_B, example_C])
          (length [example_R1, example_R2]) [1, 1, 2, 2 :: int])
   \<and> (\<exists>path rels'. Path_hydrate [example_A, example_B, example_C] [example_R1, example_R2] [1, 1, 2, 2 :: int] = Inr (path, rels')
               \<and> length (path_nodes path) = length (path_relationships path) + 1
               \<and> Path_len path = length (path_relationships path)
               \<and> Path_len path = length [1, 1, 2, 2 :: int] div 2
               \<and> Path_start path = Inr (hd (path_nodes path))
               \<and> Path_start path = Inr (ENode ([example_A, example_B, example_C] ! 0))
               \<and> Path_end path = Inr (last (path_nodes path))
               \<and> Path_end path =
                   Inr (ENode (if [1, 1, 2, 2 :: int] = [] then [example_A, example_B, example_C] ! 0 else py_nth [example_A, example_B, example_C] (last [1, 1, 2, 2 :: int]))))"
proof -
  have h1: "[example_A, example_B, example_C] \<noteq> []" by simp
  have h2: "valid_sequence (length [example_A, example_B, example_C])
          (length [example_R1, example_R2]) [1, 1, 2, 2 :: int]"
    by (simp add: valid_pair_def)
  show ?thesis by (rule conjI [OF conjI [OF h1 h2] C8_path_shape [OF h1 h2]])
qed

text \<open>
  Claim C9 (frame). On a valid input \<open>Path.hydrate\<close> changes nothing but the \<open>start\<close> and
  \<open>end\<close> of the relationships: the store has the same objects with the same \<open>id\<close>,
  \<open>type\<close> and \<open>properties\<close>, an object that no selector names is unchanged, the nodes
  of the path are nodes of the input and its relationships are objects of the store. The
  node list and the sequence are only read by the source and are values of the model.
\<close>

theorem C9_frame:
  assumes "nodes \<noteq> []" and "valid_sequence (length nodes) (length rels) sequence"
  shows "\<exists>path rels'. Path_hydrate nodes rels sequence = Inr (path, rels')
           \<and> length rels' = length rels
           \<and> list_all2 (\<lambda>r' r. \<exists>s e. r' = r\<lparr>rel_start := s, rel_end := e\<rparr>) rels' rels
           \<and> list_all2 (\<lambda>r' r. rel_id r' = rel_id r \<and> rel_type r' = rel_type r \<and>
                                 rel_properties r' = rel_properties r) rels' rels
           \<and> (\<forall>x<length rels.
                 (\<forall>j<length sequence div 2. rel_pos (sequence ! (2 * j)) \<noteq> x) \<longrightarrow>
                 rels' ! x = rels ! x)
           \<and> set (path_nodes path) \<subseteq> ENode ` set nodes
           \<and> set (path_relationships path) \<subseteq> ERel ` set rels'"
proof -
  let ?n = "length sequence div 2"
  let ?rels' = "st_rels (state_after nodes rels sequence ?n)"
  let ?p = "\<lparr>path_nodes = ENode (nodes ! 0) #
             map (\<lambda>j. ENode (py_nth nodes (sequence ! (2 * j + 1)))) [0..<?n],
           path_relationships =
             map (\<lambda>j. ERel (?rels' ! rel_pos (sequence ! (2 * j)))) [0..<?n]\<rparr>"
  from assms(2) have v: "\<forall>j<?n. valid_pair (length nodes) (length rels)
                  (sequence ! (2 * j)) (sequence ! (2 * j + 1))"
    by (simp add: valid_sequence_iff)
  have len: "length ?rels' = length rels" by (rule length_state_after)
  have f: "list_all2 (\<lambda>r' r. \<exists>s e. r' = r\<lparr>rel_start := s, rel_end := e\<rparr>) ?rels' rels"
    unfolding list_all2_conv_all_nth
  proof (intro conjI allI impI)
    show "length ?rels' = length rels" by (rule len)
  next
    fix i assume "i < length ?rels'"
    with len have "i < length rels" by simp
    then show "\<exists>s e. ?rels' ! i = (rels ! i)\<lparr>rel_start := s, rel_end := e\<rparr>"
      by (rule state_after_frame)
  qed
  have g: "list_all2 (\<lambda>r' r. rel_id r' = rel_id r \<and> rel_type r' = rel_type r \<and>
                                 rel_properties r' = rel_properties r) ?rels' rels"
    by (rule list_all2_mono [OF f]) auto
  have u: "\<forall>x<length rels. (\<forall>j<?n. rel_pos (sequence ! (2 * j)) \<noteq> x) \<longrightarrow>
                 ?rels' ! x = rels ! x"
    using state_after_untouched by blast
  have pn: "set (path_nodes ?p) \<subseteq> ENode ` set nodes"
  proof -
    have "py_nth nodes (sequence ! (2 * j + 1)) \<in> set nodes" if "j < ?n" for j
    proof -
      from v that have "- int (length nodes) \<le> sequence ! (2 * j + 1)"
        and "sequence ! (2 * j + 1) < int (length nodes)"
        by (simp_all add: valid_pair_def)
      then show ?thesis by (auto simp: py_nth_def intro!: nth_mem)
    qed
    with assms(1) show ?thesis by auto
  qed
  have pr: "set (path_relationships ?p) \<subseteq> ERel ` set ?rels'"
  proof -
    have "?rels' ! rel_pos (sequence ! (2 * j)) \<in> set ?rels'" if "j < ?n" for j
    proof -
      from v that have "sequence ! (2 * j) \<noteq> 0"
        and "\<bar>sequence ! (2 * j)\<bar> \<le> int (length rels)"
        by (simp_all add: valid_pair_def)
      then have "rel_pos (sequence ! (2 * j)) < length ?rels'"
        by (auto simp: rel_pos_def len)
      then show ?thesis by (rule nth_mem)
    qed
    then show ?thesis by auto
  qed
  have "Path_hydrate nodes rels sequence = Inr (?p, ?rels')"
    by (rule Path_hydrate_valid [OF assms])
  with len f g u pn pr show ?thesis by blast
qed

theorem C9_frame_witness:
  "([example_A, example_B, example_C] \<noteq> []
    \<and> valid_sequence (length [example_A, example_B, example_C])
          (length [example_R1, example_R2]) [1, 1, 2, 2 :: int])
   \<and> (\<exists>path rels'.
         Path_hydrate [example_A, example_B, example_C] [example_R1, example_R2]
           [1, 1, 2, 2 :: int] = Inr (path, rels')
       \<and> length rels' = length [example_R1, example_R2]
       \<and> list_all2 (\<lambda>r' r. rel_id r' = rel_id r \<and> rel_type r' = rel_type r \<and>
                             rel_properties r' = rel_properties r)
            rels' [example_R1, example_R2]
       \<and> set (path_nodes path) \<subseteq> ENode ` set [example_A, example_B, example_C])"
proof -
  have h1: "[example_A, example_B, example_C] \<noteq> []" by simp
  have h2: "valid_sequence (length [example_A, example_B, example_C])
          (length [example_R1, example_R2]) [1, 1, 2, 2 :: int]"
    by (simp add: valid_pair_def)
  from C9_frame [OF h1 h2] obtain path rels' where
    "Path_hydrate [example_A, example_B, example_C] [example_R1, example_R2]
           [1, 1, 2, 2 :: int] = Inr (path, rels')"
    "length rels' = length [example_R1, example_R2]"
    "list_all2 (\<lambda>r' r. rel_id r' = rel_id r \<and> rel_type r' = rel_type r \<and>
                             rel_properties r' = rel_properties r)
            rels' [example_R1, example_R2]"
    "set (path_nodes path) \<subseteq> ENode ` set [example_A, example_B, example_C]"
    by (elim exE conjE)
  with h1 h2 show ?thesis by (intro conjI exI)
qed

text \<open>The two examples, evaluated on the definition of \<open>Path.hydrate\<close>.\<close>

lemmas hydrate_eval =
  Path_hydrate_def hydrate_step_def py_getitem_def py_index_def Path_init_def
  slice_1_2_def enumerate_eq_zip Let_def

lemma forward_example_run:
  "Path_hydrate [A, B, C] [R1, R2] [1, 1, 2, 2] =
     Inr (\<lparr>path_nodes = [ENode A, ENode B, ENode C],
           path_relationships =
             [ERel (R1\<lparr>rel_start := node_id A, rel_end := node_id B\<rparr>),
              ERel (R2\<lparr>rel_start := node_id B, rel_end := node_id C\<rparr>)]\<rparr>,
          [R1\<lparr>rel_start := node_id A, rel_end := node_id B\<rparr>,
           R2\<lparr>rel_start := node_id B, rel_end := node_id C\<rparr>])"
  by (simp add: hydrate_eval upt_rec)

lemma reverse_example_run:
  "Path_hydrate [A, B] [R1] [- 1, 0] =
     Inr (\<lparr>path_nodes = [ENode A, ENode A],
           path_relationships = [ERel (R1\<lparr>rel_start := node_id A, rel_end := node_id A\<rparr>)]\<rparr>,
          [R1\<lparr>rel_start := node_id A, rel_end := node_id A\<rparr>])"
  by (simp add: hydrate_eval upt_rec)

lemma pair_in_final_path:
  assumes run: "Path_hydrate nodes rels sequence = Inr (path, rels')"
    and j: "j < length sequence div 2"
    and later: "\<forall>j'. j < j' \<and> j' < length sequence div 2 \<longrightarrow>
                  rel_pos (sequence ! (2 * j')) \<noteq> rel_pos (sequence ! (2 * j))"
  shows "\<exists>last_node next_node.
           path_nodes path ! j = ENode last_node
         \<and> path_nodes path ! Suc j = ENode next_node
         \<and> py_getitem nodes (sequence ! (2 * j + 1)) = Inr next_node
         \<and> rel_pos (sequence ! (2 * j)) < length rels
         \<and> path_relationships path ! j = ERel (rels' ! rel_pos (sequence ! (2 * j)))
         \<and> rels' ! rel_pos (sequence ! (2 * j)) =
             assign_ends (sequence ! (2 * j)) last_node next_node
               (rels ! rel_pos (sequence ! (2 * j)))"
proof -
  let ?n = "length sequence div 2"
  let ?k = "rel_pos (sequence ! (2 * j))"
  let ?last = "st_last_node (state_after nodes rels sequence j)"
  let ?next = "py_nth nodes (sequence ! (2 * j + 1))"
  from Path_hydrate_Inr_valid [OF run]
  have ne: "nodes \<noteq> []" and vs: "valid_sequence (length nodes) (length rels) sequence"
    by simp_all
  from vs j have v: "valid_pair (length nodes) (length rels)
                  (sequence ! (2 * j)) (sequence ! (2 * j + 1))"
    by (simp add: valid_sequence_iff)
  from Path_hydrate_valid [OF ne vs] run
  have p: "path = \<lparr>path_nodes = ENode (nodes ! 0) #
             map (\<lambda>j. ENode (py_nth nodes (sequence ! (2 * j + 1)))) [0..<?n],
           path_relationships =
             map (\<lambda>j. ERel (rels' ! rel_pos (sequence ! (2 * j)))) [0..<?n]\<rparr>"
    and r: "rels' = st_rels (state_after nodes rels sequence ?n)"
    by simp_all
  from v have k: "?k < length rels" by (auto simp: valid_pair_def rel_pos_def)
  have "?last = (if j = 0 then nodes ! 0 else py_nth nodes (sequence ! (2 * j - 1)))"
    by (rule st_last_node_state_after)
  moreover from p j
  have "path_nodes path ! j =
          ENode (if j = 0 then nodes ! 0 else py_nth nodes (sequence ! (2 * j - 1)))"
    by (cases j) simp_all
  ultimately have n1: "path_nodes path ! j = ENode ?last" by simp
  from p j have n2: "path_nodes path ! Suc j = ENode ?next" by simp
  from v have g: "py_getitem nodes (sequence ! (2 * j + 1)) = Inr ?next"
    by (simp add: valid_pair_def py_getitem_in_range)
  from p j have pr: "path_relationships path ! j = ERel (rels' ! ?k)" by simp
  from state_after_last_write [OF j k later, of nodes] r
  have w: "rels' ! ?k = assign_ends (sequence ! (2 * j)) ?last ?next (rels ! ?k)" by simp
  from n1 n2 g k pr w show ?thesis by blast
qed

lemma hydrate_step_reverse:
  assumes "rel_index < 0" and "hydrate_step nodes sequence (i, rel_index) st = Inr st'"
  shows "\<exists>node_index next_node.
           py_getitem sequence (2 * int i + 1) = Inr node_index
         \<and> py_getitem nodes node_index = Inr next_node
         \<and> nat (\<bar>rel_index\<bar> - 1) < length (st_rels st)
         \<and> st_rels st' = (st_rels st)[nat (\<bar>rel_index\<bar> - 1) :=
               (st_rels st ! nat (\<bar>rel_index\<bar> - 1))
                 \<lparr>rel_start := node_id next_node, rel_end := node_id (st_last_node st)\<rparr>]
         \<and> st_entities st' = st_entities st @ [RRel (nat (\<bar>rel_index\<bar> - 1)), RNode next_node]
         \<and> st_last_node st' = next_node"
proof -
  from assms obtain node_index where
    a: "py_getitem sequence (2 * int i + 1) = Inr node_index"
    by (cases "py_getitem sequence (2 * int i + 1)") (auto simp: hydrate_step_def)
  from hydrate_step_Inr_valid [OF assms(2) a]
  have v: "valid_pair (length nodes) (length (st_rels st)) rel_index node_index" .
  then have b: "py_getitem nodes node_index = Inr (py_nth nodes node_index)"
    by (simp add: valid_pair_def py_getitem_in_range)
  from v have c: "nat (\<bar>rel_index\<bar> - 1) < length (st_rels st)"
    by (auto simp: valid_pair_def)
  from hydrate_step_valid [OF a v] assms
  have "st' = \<lparr>st_rels = (st_rels st)[rel_pos rel_index :=
                   assign_ends rel_index (st_last_node st) (py_nth nodes node_index)
                     (st_rels st ! rel_pos rel_index)],
               st_entities = st_entities st @
                   [RRel (rel_pos rel_index), RNode (py_nth nodes node_index)],
               st_last_node = py_nth nodes node_index\<rparr>"
    by simp
  with assms(1) a b c show ?thesis
    by (simp add: rel_pos_def assign_ends_def)
qed

lemma node_id_Node_hydrate: "node_id (Node_hydrate i l p) = i"
  by (simp add: Node_hydrate_def Let_def)

text \<open>
  Claim C1 (forward decompression). For the nodes \<open>A\<close>, \<open>B\<close>, \<open>C\<close> with the identifiers
  0, 1, 2, the unbound relationships \<open>R1\<close>, \<open>R2\<close> and the sequence \<open>[1, 1, 2, 2]\<close> the
  path has the nodes \<open>(A, B, C)\<close> and the relationships \<open>(R1, R2)\<close>, now with
  \<open>R1.start = A.id\<close>, \<open>R1.end = B.id\<close>, \<open>R2.start = B.id\<close>, \<open>R2.end = C.id\<close>; its
  length is 2, its start is \<open>A\<close> and its end is \<open>C\<close>.
\<close>

theorem C1_forward_decompression:
  "let A = Node_hydrate (Some 0) la pa;
       B = Node_hydrate (Some 1) lb pb;
       C = Node_hydrate (Some 2) lc pc;
       R1 = Relationship_hydrate_unbound i1 ''LIKES'' p1;
       R2 = Relationship_hydrate_unbound i2 ''KNOWS'' p2
   in \<exists>path R1' R2'.
        Path_hydrate [A, B, C] [R1, R2] [1, 1, 2, 2] = Inr (path, [R1', R2'])
      \<and> path_nodes path = [ENode A, ENode B, ENode C]
      \<and> path_relationships path = [ERel R1', ERel R2']
      \<and> tuple_eq (path_relationships path) [ERel R1, ERel R2] = Inr True
      \<and> R1' = R1\<lparr>rel_start := Some 0, rel_end := Some 1\<rparr>
      \<and> R2' = R2\<lparr>rel_start := Some 1, rel_end := Some 2\<rparr>
      \<and> rel_start R1' = node_id A \<and> rel_end R1' = node_id B
      \<and> rel_start R2' = node_id B \<and> rel_end R2' = node_id C
      \<and> Path_len path = 2
      \<and> Path_start path = Inr (ENode A)
      \<and> Path_end path = Inr (ENode C)"
  unfolding Let_def
  apply (rule exI [of _ "\<lparr>path_nodes = [ENode (Node_hydrate (Some 0) la pa),
            ENode (Node_hydrate (Some 1) lb pb), ENode (Node_hydrate (Some 2) lc pc)],
          path_relationships =
            [ERel ((Relationship_hydrate_unbound i1 ''LIKES'' p1)
                     \<lparr>rel_start := Some 0, rel_end := Some 1\<rparr>),
             ERel ((Relationship_hydrate_unbound i2 ''KNOWS'' p2)
                     \<lparr>rel_start := Some 1, rel_end := Some 2\<rparr>)]\<rparr>"])
  apply (rule exI [of _ "(Relationship_hydrate_unbound i1 ''LIKES'' p1)
                     \<lparr>rel_start := Some 0, rel_end := Some 1\<rparr>"])
  apply (rule exI [of _ "(Relationship_hydrate_unbound i2 ''KNOWS'' p2)
                     \<lparr>rel_start := Some 1, rel_end := Some 2\<rparr>"])
  apply (simp add: forward_example_run node_id_Node_hydrate Path_len_def Path_start_def Path_end_def
      py_getitem_def py_index_def Entity_eq_entity)
  done

text \<open>
  Claim C2 (reverse direction and self-loops). An iteration with a negative selector
  assigns \<open>start = next_node.id\<close> and \<open>end = last_node.id\<close> to the relationship at
  position \<open>|rel_index| - 1\<close> of \<open>rels\<close>. In the returned path the relationship of
  pair \<open>j\<close> lies between the nodes \<open>j\<close> and \<open>j + 1\<close> and carries these two
  identifiers, when no later pair selects the same object again. No condition relates the
  next node to the last one: for \<open>[A, B]\<close>, \<open>[R1]\<close> and \<open>[-1, 0]\<close> the path has length
  1, the nodes \<open>(A, A)\<close> and \<open>R1.start = R1.end = A.id\<close>.
\<close>

theorem C2_reverse_and_self_loop:
  "(rel_index < 0 \<and> hydrate_step nodes sequence (i, rel_index) st = Inr st' \<longrightarrow>
      (\<exists>node_index next_node.
           py_getitem sequence (2 * int i + 1) = Inr node_index
         \<and> py_getitem nodes node_index = Inr next_node
         \<and> nat (\<bar>rel_index\<bar> - 1) < length (st_rels st)
         \<and> st_rels st' = (st_rels st)[nat (\<bar>rel_index\<bar> - 1) :=
               (st_rels st ! nat (\<bar>rel_index\<bar> - 1))
                 \<lparr>rel_start := node_id next_node, rel_end := node_id (st_last_node st)\<rparr>]
         \<and> st_entities st' = st_entities st @ [RRel (nat (\<bar>rel_index\<bar> - 1)), RNode next_node]
         \<and> st_last_node st' = next_node))
   \<and> (Path_hydrate nodes rels sequence = Inr (path, rels')
       \<and> j < length sequence div 2 \<and> sequence ! (2 * j) < 0
       \<and> (\<forall>j'. j < j' \<and> j' < length sequence div 2 \<longrightarrow>
              rel_pos (sequence ! (2 * j')) \<noteq> rel_pos (sequence ! (2 * j))) \<longrightarrow>
      (\<exists>last_node next_node.
           path_nodes path ! j = ENode last_node
         \<and> path_nodes path ! Suc j = ENode next_node
         \<and> py_getitem nodes (sequence ! (2 * j + 1)) = Inr next_node
         \<and> nat (\<bar>sequence ! (2 * j)\<bar> - 1) < length rels
         \<and> path_relationships path ! j = ERel (rels' ! nat (\<bar>sequence ! (2 * j)\<bar> - 1))
         \<and> rels' ! nat (\<bar>sequence ! (2 * j)\<bar> - 1) =
             (rels ! nat (\<bar>sequence ! (2 * j)\<bar> - 1))
               \<lparr>rel_start := node_id next_node, rel_end := node_id last_node\<rparr>))
   \<and> (let A = Node_hydrate (Some 0) la pa;
           B = Node_hydrate (Some 1) lb pb;
           R1 = Relationship_hydrate_unbound i1 t1 p1
       in \<exists>path R1'.
            Path_hydrate [A, B] [R1] [- 1, 0] = Inr (path, [R1'])
          \<and> Path_len path = 1
          \<and> path_nodes path = [ENode A, ENode A]
          \<and> path_relationships path = [ERel R1']
          \<and> R1' = R1\<lparr>rel_start := Some 0, rel_end := Some 0\<rparr>
          \<and> rel_start R1' = node_id A \<and> rel_end R1' = node_id A)"
proof (intro conjI impI)
  assume "rel_index < 0 \<and> hydrate_step nodes sequence (i, rel_index) st = Inr st'"
  then show "\<exists>node_index next_node.
           py_getitem sequence (2 * int i + 1) = Inr node_index
         \<and> py_getitem nodes node_index = Inr next_node
         \<and> nat (\<bar>rel_index\<bar> - 1) < length (st_rels st)
         \<and> st_rels st' = (st_rels st)[nat (\<bar>rel_index\<bar> - 1) :=
               (st_rels st ! nat (\<bar>rel_index\<bar> - 1))
                 \<lparr>rel_start := node_id next_node, rel_end := node_id (st_last_node st)\<rparr>]
         \<and> st_entities st' = st_entities st @ [RRel (nat (\<bar>rel_index\<bar> - 1)), RNode next_node]
         \<and> st_last_node st' = next_node"
    using hydrate_step_reverse by blast
next
  assume a: "Path_hydrate nodes rels sequence = Inr (path, rels')
       \<and> j < length sequence div 2 \<and> sequence ! (2 * j) < 0
       \<and> (\<forall>j'. j < j' \<and> j' < length sequence div 2 \<longrightarrow>
              rel_pos (sequence ! (2 * j')) \<noteq> rel_pos (sequence ! (2 * j)))"
  then have run: "Path_hydrate nodes rels sequence = Inr (path, rels')"
    and j: "j < length sequence div 2" and neg: "sequence ! (2 * j) < 0"
    and later: "\<forall>j'. j < j' \<and> j' < length sequence div 2 \<longrightarrow>
              rel_pos (sequence ! (2 * j')) \<noteq> rel_pos (sequence ! (2 * j))"
    by blast+
  from pair_in_final_path [OF run j later] obtain last_node next_node where
    "path_nodes path ! j = ENode last_node"
    "path_nodes path ! Suc j = ENode next_node"
    "py_getitem nodes (sequence ! (2 * j + 1)) = Inr next_node"
    "rel_pos (sequence ! (2 * j)) < length rels"
    "path_relationships path ! j = ERel (rels' ! rel_pos (sequence ! (2 * j)))"
    "rels' ! rel_pos (sequence ! (2 * j)) =
       assign_ends (sequence ! (2 * j)) last_node next_node (rels ! rel_pos (sequence ! (2 * j)))"
    by blast
  with neg show "\<exists>last_node next_node.
           path_nodes path ! j = ENode last_node
         \<and> path_nodes path ! Suc j = ENode next_node
         \<and> py_getitem nodes (sequence ! (2 * j + 1)) = Inr next_node
         \<and> nat (\<bar>sequence ! (2 * j)\<bar> - 1) < length rels
         \<and> path_relationships path ! j = ERel (rels' ! nat (\<bar>sequence ! (2 * j)\<bar> - 1))
         \<and> rels' ! nat (\<bar>sequence ! (2 * j)\<bar> - 1) =
             (rels ! nat (\<bar>sequence ! (2 * j)\<bar> - 1))
               \<lparr>rel_start := node_id next_node, rel_end := node_id last_node\<rparr>"
    by (simp add: rel_pos_def assign_ends_def)
next
  show "let A = Node_hydrate (Some 0) la pa;
           B = Node_hydrate (Some 1) lb pb;
           R1 = Relationship_hydrate_unbound i1 t1 p1
       in \<exists>path R1'.
            Path_hydrate [A, B] [R1] [- 1, 0] = Inr (path, [R1'])
          \<and> Path_len path = 1
          \<and> path_nodes path = [ENode A, ENode A]
          \<and> path_relationships path = [ERel R1']
          \<and> R1' = R1\<lparr>rel_start := Some 0, rel_end := Some 0\<rparr>
          \<and> rel_start R1' = node_id A \<and> rel_end R1' = node_id A"
    by (simp add: Let_def reverse_example_run node_id_Node_hydrate Path_len_def)
qed

theorem C2_reverse_and_self_loop_witness:
  "((- 1 :: int) < 0
    \<and> hydrate_step [example_A, example_B] [- 1, 0] (0, - 1)
         \<lparr>st_rels = [example_R1], st_entities = [RNode example_A],
          st_last_node = example_A\<rparr> =
        Inr \<lparr>st_rels = [example_R1\<lparr>rel_start := Some 0, rel_end := Some 0\<rparr>],
             st_entities = [RNode example_A, RRel 0, RNode example_A],
             st_last_node = example_A\<rparr>)
   \<and> (Path_hydrate [example_A, example_B] [example_R1] [- 1, 0] =
        Inr (\<lparr>path_nodes = [ENode example_A, ENode example_A],
              path_relationships =
                [ERel (example_R1\<lparr>rel_start := Some 0, rel_end := Some 0\<rparr>)]\<rparr>,
             [example_R1\<lparr>rel_start := Some 0, rel_end := Some 0\<rparr>])
       \<and> (0::nat) < length [- 1, 0 :: int] div 2 \<and> [- 1, 0 :: int] ! (2 * 0) < 0)
   \<and> (\<exists>last_node next_node.
           path_nodes \<lparr>path_nodes = [ENode example_A, ENode example_A],
              path_relationships =
                [ERel (example_R1\<lparr>rel_start := Some 0, rel_end := Some 0\<rparr>)]\<rparr> ! 0 =
           ENode last_node
         \<and> path_nodes \<lparr>path_nodes = [ENode example_A, ENode example_A],
              path_relationships =
                [ERel (example_R1\<lparr>rel_start := Some 0, rel_end := Some 0\<rparr>)]\<rparr> ! Suc 0 =
           ENode next_node
         \<and> py_getitem [example_A, example_B] ([- 1, 0] ! (2 * 0 + 1)) = Inr next_node
         \<and> nat (\<bar>[- 1, 0] ! (2 * 0)\<bar> - 1) < length [example_R1]
         \<and> path_relationships \<lparr>path_nodes = [ENode example_A, ENode example_A],
              path_relationships =
                [ERel (example_R1\<lparr>rel_start := Some 0, rel_end := Some 0\<rparr>)]\<rparr> ! 0 =
           ERel ([example_R1\<lparr>rel_start := Some 0, rel_end := Some 0\<rparr>] !
                   nat (\<bar>[- 1, 0] ! (2 * 0)\<bar> - 1))
         \<and> [example_R1\<lparr>rel_start := Some 0, rel_end := Some 0\<rparr>] !
               nat (\<bar>[- 1, 0] ! (2 * 0)\<bar> - 1) =
             ([example_R1] ! nat (\<bar>[- 1, 0] ! (2 * 0)\<bar> - 1))
               \<lparr>rel_start := node_id next_node, rel_end := node_id last_node\<rparr>)"
  (is "?H1 \<and> ?H2 \<and> ?C")
proof -
  have ida: "node_id example_A = Some 0"
    by (simp add: example_A_def node_id_Node_hydrate)
  have h1: ?H1
    by (simp add: hydrate_step_def py_getitem_def py_index_def ida)
  have h2: ?H2
    by (simp add: reverse_example_run ida)
  have h3: "\<forall>j'. 0 < j' \<and> j' < length [- 1, 0 :: int] div 2 \<longrightarrow>
              rel_pos ([- 1, 0] ! (2 * j')) \<noteq> rel_pos ([- 1, 0] ! (2 * 0))"
    by auto
  note t = C2_reverse_and_self_loop [of "- 1" "[example_A, example_B]" "[- 1, 0]" 0
      "\<lparr>st_rels = [example_R1], st_entities = [RNode example_A], st_last_node = example_A\<rparr>"
      "\<lparr>st_rels = [example_R1\<lparr>rel_start := Some 0, rel_end := Some 0\<rparr>],
             st_entities = [RNode example_A, RRel 0, RNode example_A],
             st_last_node = example_A\<rparr>"
      "[example_R1]"
      "\<lparr>path_nodes = [ENode example_A, ENode example_A],
              path_relationships =
                [ERel (example_R1\<lparr>rel_start := Some 0, rel_end := Some 0\<rparr>)]\<rparr>"
      "[example_R1\<lparr>rel_start := Some 0, rel_end := Some 0\<rparr>]" 0]
  from t [THEN conjunct2, THEN conjunct1, THEN mp] h2 h3
  have c: ?C by blast
  show ?thesis by (rule conjI [OF h1 conjI [OF h2 c]])
qed

end
